theory Spec2Isabelle
  imports Main
begin

section \<open>Strings\<close>

text \<open>
  Strings of the handler are modelled as \<open>string\<close>; case folding and white space are
  those of the ASCII range. A value that may be \<open>undefined\<close> is an \<open>option\<close>.
\<close>

definition toLowerCase_char :: "char \<Rightarrow> char" where
  "toLowerCase_char c =
     (let n = (of_char c :: nat) in if 65 \<le> n \<and> n \<le> 90 then char_of (n + 32) else c)"

definition toLowerCase :: "string \<Rightarrow> string" where
  "toLowerCase s = map toLowerCase_char s"

fun startsWith :: "string \<Rightarrow> string \<Rightarrow> bool" where
  "startsWith s [] = True"
| "startsWith [] (d # ds) = False"
| "startsWith (c # cs) (d # ds) = (c = d \<and> startsWith cs ds)"

fun includes_str :: "string \<Rightarrow> string \<Rightarrow> bool" where
  "includes_str [] sub = (sub = [])"
| "includes_str (c # cs) sub = (startsWith (c # cs) sub \<or> includes_str cs sub)"

definition is_white_space :: "char \<Rightarrow> bool" where
  "is_white_space c = ((of_char c :: nat) \<in> {9, 10, 11, 12, 13, 32})"

definition trim :: "string \<Rightarrow> string" where
  "trim s = rev (dropWhile is_white_space (rev (dropWhile is_white_space s)))"

text \<open>\<open>s.split("/").pop()\<close>: the characters after the last separator.\<close>

fun split_pop :: "char \<Rightarrow> string \<Rightarrow> string" where
  "split_pop sep [] = []"
| "split_pop sep (c # cs) = (if sep \<in> set cs then split_pop sep cs
                               else if c = sep then cs else c # cs)"

text \<open>\<open>xs.join(sep)\<close>.\<close>

fun join :: "string \<Rightarrow> string list \<Rightarrow> string" where
  "join sep [] = []"
| "join sep [x] = x"
| "join sep (x # y # ys) = x @ sep @ join sep (y # ys)"

text \<open>\<open>a || b\<close> on a string that may be undefined: the empty string is falsy too.\<close>

definition truthy :: "string option \<Rightarrow> bool" where
  "truthy v = (case v of None \<Rightarrow> False | Some s \<Rightarrow> s \<noteq> [])"

definition or_else :: "string option \<Rightarrow> string \<Rightarrow> string" where
  "or_else v d = (case v of None \<Rightarrow> d | Some s \<Rightarrow> if s = [] then d else s)"

text \<open>\<open>xs.slice(0, n)\<close>: a negative end counts from the end of the array.\<close>

definition slice0 :: "int \<Rightarrow> 'a list \<Rightarrow> 'a list" where
  "slice0 n xs = (if n < 0 then take (nat (int (length xs) + n)) xs else take (nat n) xs)"

fun digits :: "nat \<Rightarrow> string" where
  "digits n = (if n < 10 then [char_of (48 + n)]
               else digits (n div 10) @ [char_of (48 + n mod 10)])"

section \<open>Data model\<close>

text \<open>
  The request body as the handler destructures it, already decoded: a field that is absent
  is \<open>None\<close>. \<open>pagesToCrawl\<close> is an integer, as in the request type of the specification.
\<close>

record RequestBody =
  message :: "string option"
  pagesToCrawl :: "int option"
  skipEmbeddings :: "bool option"

record ScrapedPage =
  url :: string
  title :: string
  content :: string

record FirecrawlMetadata =
  sourceURL :: "string option"
  statusCode :: "nat option"

record FirecrawlDocument =
  markdown :: "string option"
  metadata :: "FirecrawlMetadata option"

record SearchResult =
  sr_title :: string
  link :: string
  favicon :: string

text \<open>One entry of the search provider's \<open>organic\<close> array, before it is normalised.\<close>

record OrganicResult =
  org_title :: "string option"
  org_link :: string
  favicons :: "string list option"

record Provider =
  provider :: string
  model :: string

text \<open>What \<open>generateLLMResponse\<close> returns: an object with exactly these two keys.\<close>

record LLMResponse =
  llm_content :: "string option"
  providers :: "Provider list option"

text \<open>What the routing client hands back: any of the fields may be missing.\<close>

record RoutedResult =
  res_content :: "string option"
  res_providers :: "Provider list option"
  res_detail :: "string option"

record ScrapeResponse =
  success :: bool
  data :: "FirecrawlDocument list option"

record Source =
  src_title :: string
  src_url :: string

record CrawlInfo =
  requestedPages :: int
  actualPagesCrawled :: nat
  embeddingsUsed :: bool

record ResponsePayload =
  answer :: "string option"
  selectedModel :: "Provider option"
  crawlInfo :: CrawlInfo
  sources :: "Source list"

datatype error =
    SerperApiError nat
  | Thrown string
  | Error string
  | TypeError string

fun error_message :: "error \<Rightarrow> string" where
  "error_message (SerperApiError st) = ''Serper API error: '' @ digits st"
| "error_message (Thrown m) = m"
| "error_message (Error m) = m"
| "error_message (TypeError p) = ''Cannot read properties of undefined (reading '' @ [CHR 0x27] @ p @ [CHR 0x27] @ '')''"

datatype response =
    ErrorResponse nat string
  | JsonResponse ResponsePayload

datatype 'chunk RetrievedContext = Text string | Chunks "'chunk list"

section \<open>Collaborators and their calls\<close>

text \<open>
  The search provider, the scraper, the text splitter, the vector store and the model
  router are outside the handler. Each is a field of the record \<open>Collaborators\<close>: what
  the collaborator answers to a call, or the error it throws. Every function of the
  handler returns the calls it made, in order, next to its result.
\<close>

datatype call =
    SearchCall string
  | ScrapeCall "string list"
  | SplitCall string
  | FromTextsCall "string list"
  | AddVectorsCall
  | SimilaritySearchCall string nat
  | RouterCall string string

text \<open>
  The search request: it throws (the request itself, or the decoding of its answer), or
  answers with a status that is not ok, or with the \<open>organic\<close> results.
\<close>

datatype SerperOutcome =
    FetchFailed string
  | NotOk nat
  | Organic "OrganicResult list"

record ('store, 'vecs, 'metas, 'chunk) Collaborators =
  serper :: "string \<Rightarrow> SerperOutcome"
  batchScrapeUrls :: "string list \<Rightarrow> error + ScrapeResponse"
  splitText :: "nat \<Rightarrow> nat \<Rightarrow> string \<Rightarrow> error + string list"
  fromTexts :: "string list \<Rightarrow> string \<times> string \<Rightarrow> error + 'store"
  memoryVectors :: "'store \<Rightarrow> 'vecs"
  metadatas :: "'store \<Rightarrow> 'metas"
  isArrayOfArrays :: "'vecs \<Rightarrow> bool"
  addVectors :: "'store \<Rightarrow> 'vecs \<Rightarrow> 'metas \<Rightarrow> error + 'store"
  similaritySearch :: "'store \<Rightarrow> string \<Rightarrow> nat \<Rightarrow> error + 'chunk list"
  stringify :: "'chunk list \<Rightarrow> string"
  notDiamond_create :: "string \<Rightarrow> string \<Rightarrow> error + RoutedResult option"

type_synonym 'a io = "call list \<times> (error + 'a)"

definition ret :: "'a \<Rightarrow> 'a io" where
  "ret x = ([], Inr x)"

definition throw :: "error \<Rightarrow> 'a io" where
  "throw e = ([], Inl e)"

definition await :: "call \<Rightarrow> (error + 'a) \<Rightarrow> 'a io" where
  "await c r = ([c], r)"

definition bind :: "'a io \<Rightarrow> ('a \<Rightarrow> 'b io) \<Rightarrow> 'b io" where
  "bind m f = (case m of
       (cs, Inl e) \<Rightarrow> (cs, Inl e)
     | (cs, Inr x) \<Rightarrow> (case f x of (cs', r) \<Rightarrow> (cs @ cs', r)))"

section \<open>Search\<close>

definition first_favicon :: "string list option \<Rightarrow> string option" where
  "first_favicon fs = (case fs of None \<Rightarrow> None | Some [] \<Rightarrow> None | Some (f # _) \<Rightarrow> Some f)"

definition to_SearchResult :: "OrganicResult \<Rightarrow> SearchResult" where
  "to_SearchResult r =
     \<lparr>sr_title = or_else (org_title r) ''No Title'',
      link = org_link r,
      favicon = or_else (first_favicon (favicons r)) []\<rparr>"

definition serperSearch ::
  "('store, 'vecs, 'metas, 'chunk) Collaborators \<Rightarrow> string \<Rightarrow> int \<Rightarrow> SearchResult list io" where
  "serperSearch env msg numberOfPagesToScan =
     bind (await (SearchCall msg)
             (case serper env msg of
                FetchFailed m \<Rightarrow> Inl (Thrown m)
              | NotOk st \<Rightarrow> Inl (SerperApiError st)
              | Organic organic \<Rightarrow> Inr organic))
       (\<lambda>organic. ret (map to_SearchResult (slice0 numberOfPagesToScan organic)))"

section \<open>Filtering and scraping\<close>

definition unsupportedDomains :: "string list" where
  "unsupportedDomains =
     [''twitter.com'', ''x.com'', ''facebook.com'', ''fb.com'', ''instagram.com'',
      ''linkedin.com'', ''tiktok.com'', ''youtube.com'', ''reddit.com'', ''threads.net'',
      ''pinterest.com'', ''tumblr.com'', ''snapchat.com'']"

definition supported :: "string \<Rightarrow> bool" where
  "supported u = (let lowerUrl = toLowerCase u
                  in \<not> list_ex (\<lambda>domain. includes_str lowerUrl domain) unsupportedDomains)"

definition filteredUrls :: "SearchResult list \<Rightarrow> string list" where
  "filteredUrls searchResults = filter supported (map link searchResults)"

definition noValidUrls :: ScrapedPage where
  "noValidUrls =
     \<lparr>url = ''No valid URLs'', title = ''No Results'',
      content = ''Unable to find non-social media content for this query.''\<rparr>"

definition scrapingFailed :: ScrapedPage where
  "scrapingFailed =
     \<lparr>url = ''Scraping failed'', title = ''Error'',
      content = ''Failed to scrape content from the provided URLs.''\<rparr>"

definition doc_sourceURL :: "FirecrawlDocument \<Rightarrow> string option" where
  "doc_sourceURL doc = (case metadata doc of None \<Rightarrow> None | Some m \<Rightarrow> sourceURL m)"

definition has_url_and_markdown :: "FirecrawlDocument \<Rightarrow> bool" where
  "has_url_and_markdown doc = (truthy (doc_sourceURL doc) \<and> truthy (markdown doc))"

definition to_ScrapedPage :: "FirecrawlDocument \<Rightarrow> ScrapedPage" where
  "to_ScrapedPage doc =
     \<lparr>url = or_else (doc_sourceURL doc) ''URL not available'',
      title = or_else (map_option (split_pop (CHR ''/'')) (doc_sourceURL doc))
                ''Title not available'',
      content = or_else (markdown doc) ''Content not available''\<rparr>"

text \<open>
  \<open>mapAndScrapeUrls\<close> from the filtered URLs on (steps 10 to 12 of the source): the
  scrape stage.
\<close>

definition scrape ::
  "('store, 'vecs, 'metas, 'chunk) Collaborators \<Rightarrow> string list \<Rightarrow> ScrapedPage list io" where
  "scrape env urls =
     (if length urls = 0 then ret [noValidUrls]
      else bind (await (ScrapeCall urls) (batchScrapeUrls env urls))
        (\<lambda>scrapedData.
           if \<not> success scrapedData then ret [scrapingFailed]
           else case data scrapedData of
             None \<Rightarrow> ret [scrapingFailed]
           | Some docs \<Rightarrow> ret (map to_ScrapedPage (filter has_url_and_markdown docs))))"

definition mapAndScrapeUrls ::
  "('store, 'vecs, 'metas, 'chunk) Collaborators \<Rightarrow> string \<Rightarrow> int \<Rightarrow> ScrapedPage list io" where
  "mapAndScrapeUrls env msg n =
     bind (serperSearch env msg n) (\<lambda>searchResults. scrape env (filteredUrls searchResults))"

section \<open>Building the context\<close>

definition page_block :: "ScrapedPage \<Rightarrow> string" where
  "page_block page =
     ''Page: '' @ title page @ ''\<newline>URL: '' @ url page @ ''\<newline>Content:\<newline>''
       @ content page @ ''\<newline>-------------------''"

definition processDirectContext :: "ScrapedPage list \<Rightarrow> string" where
  "processDirectContext scrapedPages =
     join ''\<newline>\<newline>'' (map (\<lambda>page. trim (page_block page)) scrapedPages)"

text \<open>
  Embedding mode. The per-page tasks of \<open>Promise.all\<close> are taken in page order and the
  first failing page gives the error. The store of the first page is the one that is
  returned (\<open>undefined\<close>, here \<open>None\<close>, when there is no page); \<open>addVectors\<close> updates it.
\<close>

definition embed_page ::
  "('store, 'vecs, 'metas, 'chunk) Collaborators \<Rightarrow> nat \<Rightarrow> nat \<Rightarrow> ScrapedPage \<Rightarrow> 'store io" where
  "embed_page env textChunkSize textChunkOverlap page =
     bind (await (SplitCall (content page))
             (splitText env textChunkSize textChunkOverlap (content page)))
       (\<lambda>texts. await (FromTextsCall texts) (fromTexts env texts (url page, title page)))"

fun embed_pages ::
  "('store, 'vecs, 'metas, 'chunk) Collaborators \<Rightarrow> nat \<Rightarrow> nat \<Rightarrow> ScrapedPage list
     \<Rightarrow> 'store list io" where
  "embed_pages env textChunkSize textChunkOverlap [] = ret []"
| "embed_pages env textChunkSize textChunkOverlap (page # pages) =
     bind (embed_page env textChunkSize textChunkOverlap page)
       (\<lambda>st. bind (embed_pages env textChunkSize textChunkOverlap pages)
          (\<lambda>sts. ret (st # sts)))"

fun combine_stores ::
  "('store, 'vecs, 'metas, 'chunk) Collaborators \<Rightarrow> 'store \<Rightarrow> 'store list \<Rightarrow> 'store io" where
  "combine_stores env vectorStore [] = ret vectorStore"
| "combine_stores env vectorStore (currentStore # rest) =
     (let vectors = memoryVectors env currentStore;
          metas = metadatas env currentStore
      in if isArrayOfArrays env vectors
         then bind (await AddVectorsCall (addVectors env vectorStore vectors metas))
                (\<lambda>vectorStore'. combine_stores env vectorStore' rest)
         else combine_stores env vectorStore rest)"

definition processWithEmbeddings ::
  "('store, 'vecs, 'metas, 'chunk) Collaborators \<Rightarrow> ScrapedPage list \<Rightarrow> nat \<Rightarrow> nat
     \<Rightarrow> 'store option io" where
  "processWithEmbeddings env scrapedPages textChunkSize textChunkOverlap =
     bind (embed_pages env textChunkSize textChunkOverlap scrapedPages)
       (\<lambda>processedContent.
          case processedContent of
            [] \<Rightarrow> ret None
          | vectorStore # rest \<Rightarrow>
              bind (combine_stores env vectorStore rest) (\<lambda>st. ret (Some st)))"

section \<open>Asking the model router\<close>

definition systemMessage ::
  "('store, 'vecs, 'metas, 'chunk) Collaborators \<Rightarrow> 'chunk RetrievedContext \<Rightarrow> string" where
  "systemMessage env ctx =
     (case ctx of
        Text s \<Rightarrow> ''Answer based on the following pages of content: '' @ s
      | Chunks cs \<Rightarrow> ''Answer based on the following relevant excerpts: '' @ stringify env cs)"

definition generateLLMResponse ::
  "('store, 'vecs, 'metas, 'chunk) Collaborators \<Rightarrow> 'chunk RetrievedContext \<Rightarrow> string
     \<Rightarrow> LLMResponse io" where
  "generateLLMResponse env ctx msg =
     bind (await (RouterCall (systemMessage env ctx) msg)
             (notDiamond_create env (systemMessage env ctx) msg))
       (\<lambda>result.
          case result of
            None \<Rightarrow> throw (Error ''Failed to generate LLM response'')
          | Some r \<Rightarrow> ret \<lparr>llm_content = res_content r, providers = res_providers r\<rparr>)"

section \<open>The handler\<close>

text \<open>
  \<open>"detail" in result\<close>, asked of the object \<open>generateLLMResponse\<close> has built: its
  keys are \<open>content\<close> and \<open>providers\<close>.
\<close>

definition detail_in :: "LLMResponse \<Rightarrow> bool" where
  "detail_in result = False"

definition validatedPagesToCrawl :: "int \<Rightarrow> int" where
  "validatedPagesToCrawl n = min (max 1 n) 10"

definition to_sources :: "ScrapedPage list \<Rightarrow> Source list" where
  "to_sources scrapedPages = map (\<lambda>page. \<lparr>src_title = title page, src_url = url page\<rparr>) scrapedPages"

definition build_context ::
  "('store, 'vecs, 'metas, 'chunk) Collaborators \<Rightarrow> string \<Rightarrow> bool \<Rightarrow> ScrapedPage list
     \<Rightarrow> 'chunk RetrievedContext io" where
  "build_context env msg skip scrapedPages =
     (if skip then ret (Text (processDirectContext scrapedPages))
      else bind (processWithEmbeddings env scrapedPages 800 200)
        (\<lambda>vectorStore.
           case vectorStore of
             None \<Rightarrow> throw (TypeError ''similaritySearch'')
           | Some st \<Rightarrow>
               bind (await (SimilaritySearchCall msg 2) (similaritySearch env st msg 2))
                 (\<lambda>chunks. ret (Chunks chunks))))"

definition prepare_response ::
  "int \<Rightarrow> bool \<Rightarrow> Source list \<Rightarrow> LLMResponse \<Rightarrow> ResponsePayload io" where
  "prepare_response requested skip srcs result =
     (if detail_in result then throw (Error ''Unknown error occurred'')
      else case providers result of
        None \<Rightarrow> throw (TypeError ''0'')
      | Some ps \<Rightarrow>
          ret \<lparr>answer = llm_content result,
               selectedModel = (case ps of [] \<Rightarrow> None | p # _ \<Rightarrow> Some p),
               crawlInfo = \<lparr>requestedPages = requested,
                            actualPagesCrawled = length srcs,
                            embeddingsUsed = (\<not> skip)\<rparr>,
               sources = srcs\<rparr>)"

text \<open>
  The \<open>try\<close> block after the check of the message: first the pages, then
  (\<open>answer_from\<close>) the context, the router and the payload.
\<close>

definition answer_from ::
  "('store, 'vecs, 'metas, 'chunk) Collaborators \<Rightarrow> string \<Rightarrow> int \<Rightarrow> bool
     \<Rightarrow> ScrapedPage list \<Rightarrow> ResponsePayload io" where
  "answer_from env msg requested skip scrapedPages =
     bind (build_context env msg skip scrapedPages)
       (\<lambda>ctx. bind (generateLLMResponse env ctx msg)
          (prepare_response requested skip (to_sources scrapedPages)))"

definition pipeline ::
  "('store, 'vecs, 'metas, 'chunk) Collaborators \<Rightarrow> string \<Rightarrow> int \<Rightarrow> bool
     \<Rightarrow> ResponsePayload io" where
  "pipeline env msg requested skip =
     bind (mapAndScrapeUrls env msg (validatedPagesToCrawl requested))
       (answer_from env msg requested skip)"

text \<open>The \<open>catch\<close> of the handler: any error becomes a 500 response with its message.\<close>

definition respond :: "ResponsePayload io \<Rightarrow> call list \<times> response" where
  "respond r = (case r of
       (cs, Inl e) \<Rightarrow> (cs, ErrorResponse 500 (error_message e))
     | (cs, Inr payload) \<Rightarrow> (cs, JsonResponse payload))"

text \<open>The defaults of the destructured request body.\<close>

definition requested_of :: "RequestBody \<Rightarrow> int" where
  "requested_of body = (case pagesToCrawl body of None \<Rightarrow> 3 | Some n \<Rightarrow> n)"

definition skip_of :: "RequestBody \<Rightarrow> bool" where
  "skip_of body = (case skipEmbeddings body of None \<Rightarrow> False | Some b \<Rightarrow> b)"

definition POST ::
  "('store, 'vecs, 'metas, 'chunk) Collaborators \<Rightarrow> RequestBody \<Rightarrow> call list \<times> response" where
  "POST env body =
     (case message body of
        None \<Rightarrow> ([], ErrorResponse 400 ''Message is required'')
      | Some msg \<Rightarrow>
          if msg = [] then ([], ErrorResponse 400 ''Message is required'')
          else respond (pipeline env msg (requested_of body) (skip_of body)))"

section \<open>Vocabulary of the properties\<close>

text \<open>The clamp in the words of the specification.\<close>

definition clamp_1_10 :: "int \<Rightarrow> int" where
  "clamp_1_10 n = (if n < 1 then 1 else if 10 < n then 10 else n)"

text \<open>The labelled block and the joining by blank lines, in the words of the specification.\<close>

definition labelled_block :: "string \<Rightarrow> string \<Rightarrow> string \<Rightarrow> string" where
  "labelled_block t u c =
     concat [''Page: '', t, [CHR 0x0A], ''URL: '', u, [CHR 0x0A], ''Content:'', [CHR 0x0A],
             c, [CHR 0x0A], replicate 19 (CHR ''-'')]"

primrec blank_line_joined :: "string list \<Rightarrow> string" where
  "blank_line_joined [] = []"
| "blank_line_joined (b # bs) =
     (if bs = [] then b else b @ [CHR 0x0A, CHR 0x0A] @ blank_line_joined bs)"

text \<open>A URL contains a denylisted domain, case-insensitively, as a substring.\<close>

definition denylisted :: "string \<Rightarrow> bool" where
  "denylisted u =
     list_ex (\<lambda>domain. \<exists>pre post. toLowerCase u = pre @ domain @ post) unsupportedDomains"

text \<open>
  The calls of the context stage: splitting, embedding, merging, and the similarity search
  for the message with \<open>k = 2\<close>.
\<close>

fun context_call :: "string \<Rightarrow> call \<Rightarrow> bool" where
  "context_call msg (SplitCall t) = True"
| "context_call msg (FromTextsCall ts) = True"
| "context_call msg AddVectorsCall = True"
| "context_call msg (SimilaritySearchCall q k) = (q = msg \<and> k = 2)"
| "context_call msg _ = False"

fun is_router_call :: "call \<Rightarrow> bool" where
  "is_router_call (RouterCall sm m) = True"
| "is_router_call _ = False"

fun is_scrape_call :: "call \<Rightarrow> bool" where
  "is_scrape_call (ScrapeCall us) = True"
| "is_scrape_call _ = False"

text \<open>The scraper reports as source URL only URLs it was asked to scrape.\<close>

definition reports_requested_urls :: "('store, 'vecs, 'metas, 'chunk) Collaborators \<Rightarrow> bool" where
  "reports_requested_urls env =
     (\<forall>us r docs. batchScrapeUrls env us = Inr r \<longrightarrow> data r = Some docs \<longrightarrow>
        (\<forall>d \<in> set docs. \<forall>u. doc_sourceURL d = Some u \<longrightarrow> u \<in> set us))"

text \<open>The vector store returns at most the number of results it is asked for.\<close>

definition returns_at_most_k :: "('store, 'vecs, 'metas, 'chunk) Collaborators \<Rightarrow> bool" where
  "returns_at_most_k env =
     (\<forall>st q k cs. similaritySearch env st q k = Inr cs \<longrightarrow> length cs \<le> k)"

section \<open>Concrete collaborators\<close>

text \<open>
  Deterministic stand-ins: the splitter cuts a text into its characters, the store is the
  list of the texts it was given, and the similarity search returns its first \<open>k\<close>.
\<close>

definition gpt_4o_mini :: Provider where
  "gpt_4o_mini = \<lparr>provider = ''openai'', model = ''gpt-4o-mini''\<rparr>"

definition fake ::
  "OrganicResult list \<Rightarrow> (string list \<Rightarrow> error + ScrapeResponse) \<Rightarrow> RoutedResult option
     \<Rightarrow> (string list, unit, unit, string) Collaborators" where
  "fake organic scraper routed =
     \<lparr>serper = (\<lambda>q. Organic organic),
      batchScrapeUrls = scraper,
      splitText = (\<lambda>size overlap s. Inr (map (\<lambda>c. [c]) s)),
      fromTexts = (\<lambda>texts meta. Inr texts),
      memoryVectors = (\<lambda>st. ()),
      metadatas = (\<lambda>st. ()),
      isArrayOfArrays = (\<lambda>v. False),
      addVectors = (\<lambda>st v m. Inr st),
      similaritySearch = (\<lambda>st q k. Inr (take k st)),
      stringify = concat,
      notDiamond_create = (\<lambda>sm m. Inr routed)\<rparr>"

definition organic_of :: "string \<Rightarrow> OrganicResult" where
  "organic_of l = \<lparr>org_title = Some ''T'', org_link = l, favicons = None\<rparr>"

definition doc_of :: "string \<Rightarrow> string \<Rightarrow> FirecrawlDocument" where
  "doc_of u md =
     \<lparr>markdown = Some md, metadata = Some \<lparr>sourceURL = Some u, statusCode = Some 200\<rparr>\<rparr>"

text \<open>A scraper that returns one document for every URL it is given.\<close>

definition echo_scraper :: "string list \<Rightarrow> error + ScrapeResponse" where
  "echo_scraper us = Inr \<lparr>success = True, data = Some (map (\<lambda>u. doc_of u ''body'') us)\<rparr>"

definition failing_scraper :: "string list \<Rightarrow> error + ScrapeResponse" where
  "failing_scraper us = Inr \<lparr>success = False, data = None\<rparr>"

text \<open>A scraper that reports success with an empty array of documents.\<close>

definition empty_scraper :: "string list \<Rightarrow> error + ScrapeResponse" where
  "empty_scraper us = Inr \<lparr>success = True, data = Some []\<rparr>"

text \<open>A scraper whose document names a URL that was not among those requested.\<close>

definition redirecting_scraper :: "string list \<Rightarrow> error + ScrapeResponse" where
  "redirecting_scraper us =
     Inr \<lparr>success = True, data = Some [doc_of ''https://twitter.com/x'' ''body'']\<rparr>"

definition completion :: RoutedResult where
  "completion = \<lparr>res_content = Some ''ok'', res_providers = Some [gpt_4o_mini], res_detail = None\<rparr>"

definition error_detail :: RoutedResult where
  "error_detail = \<lparr>res_content = None, res_providers = None, res_detail = Some ''quota''\<rparr>"

text \<open>A result with a detail field and no content that names providers all the same.\<close>

definition detail_with_providers :: RoutedResult where
  "detail_with_providers =
     \<lparr>res_content = None, res_providers = Some [gpt_4o_mini], res_detail = Some ''quota''\<rparr>"

definition request :: "string \<Rightarrow> int option \<Rightarrow> bool option \<Rightarrow> RequestBody" where
  "request msg n skip = \<lparr>message = Some msg, pagesToCrawl = n, skipEmbeddings = skip\<rparr>"

section \<open>Calls and results of a sequence of steps\<close>

lemma bind_await_Inl: "bind (await c (Inl e)) f = ([c], Inl e)"
  by (simp add: bind_def await_def)

lemma bind_await_Inr: "bind (await c (Inr x)) f = (c # fst (f x), snd (f x))"
  by (simp add: bind_def await_def split: prod.splits)

lemma bind_pair_Inr: "bind (cs, Inr x) f = (cs @ fst (f x), snd (f x))"
  by (simp add: bind_def split: prod.splits)

lemma snd_bind_Inr:
  "snd (bind m f) = Inr y \<longleftrightarrow> (\<exists>x. snd m = Inr x \<and> snd (f x) = Inr y)"
  by (cases m) (auto simp: bind_def split: sum.splits prod.splits)

lemma fst_bind:
  "fst (bind m f) = fst m @ (case snd m of Inl e \<Rightarrow> [] | Inr x \<Rightarrow> fst (f x))"
  by (cases m) (auto simp: bind_def split: sum.splits prod.splits)

lemma fst_ret: "fst (ret x) = []" by (simp add: ret_def)
lemma snd_ret: "snd (ret x) = Inr x" by (simp add: ret_def)
lemma fst_throw: "fst (throw e) = []" by (simp add: throw_def)
lemma snd_throw: "snd (throw e) = Inl e" by (simp add: throw_def)
lemma fst_await: "fst (await c r) = [c]" by (simp add: await_def)
lemma snd_await: "snd (await c r) = r" by (simp add: await_def)

lemmas io_simps = fst_ret snd_ret fst_throw snd_throw fst_await snd_await fst_bind

lemma calls_serperSearch: "fst (serperSearch env msg n) = [SearchCall msg]"
  by (simp add: serperSearch_def io_simps split: sum.splits)

lemma result_serperSearch:
  "serper env msg = Organic organic \<Longrightarrow>
     snd (serperSearch env msg n) = Inr (map to_SearchResult (slice0 n organic))"
  by (simp add: serperSearch_def bind_await_Inr snd_ret)

lemma calls_scrape: "fst (scrape env us) = (if us = [] then [] else [ScrapeCall us])"
  by (simp add: scrape_def io_simps split: sum.splits option.splits)

lemma calls_mapAndScrapeUrls:
  "fst (mapAndScrapeUrls env msg n) =
     SearchCall msg # (case snd (serperSearch env msg n) of Inl e \<Rightarrow> []
        | Inr rs \<Rightarrow> if filteredUrls rs = [] then [] else [ScrapeCall (filteredUrls rs)])"
  by (simp add: mapAndScrapeUrls_def fst_bind calls_serperSearch calls_scrape split: sum.splits)

lemma calls_embed_page: "list_all (context_call msg) (fst (embed_page env s ov p))"
  by (simp add: embed_page_def io_simps split: sum.splits)

lemma calls_embed_pages: "list_all (context_call msg) (fst (embed_pages env s ov pages))"
  by (induction pages) (simp_all add: io_simps calls_embed_page split: sum.splits)

lemma calls_combine_stores: "list_all (context_call msg) (fst (combine_stores env st rest))"
  by (induction rest arbitrary: st) (simp_all add: io_simps Let_def split: sum.splits)

lemma calls_processWithEmbeddings:
  "list_all (context_call msg) (fst (processWithEmbeddings env pages s ov))"
  by (simp add: processWithEmbeddings_def io_simps calls_embed_pages calls_combine_stores
      split: sum.splits list.splits)

lemma calls_build_context:
  "list_all (context_call msg) (fst (build_context env msg skip pages))"
  by (simp add: build_context_def io_simps calls_processWithEmbeddings
      split: sum.splits option.splits)

lemma calls_generateLLMResponse:
  "fst (generateLLMResponse env ctx msg) = [RouterCall (systemMessage env ctx) msg]"
  by (simp add: generateLLMResponse_def io_simps split: sum.splits option.splits)

lemma calls_prepare_response: "fst (prepare_response n skip srcs r) = []"
  by (simp add: prepare_response_def io_simps split: option.splits)

lemma calls_answer_from:
  "fst (answer_from env msg n skip pages) =
     fst (build_context env msg skip pages) @
       (case snd (build_context env msg skip pages) of Inl e \<Rightarrow> []
        | Inr ctx \<Rightarrow> [RouterCall (systemMessage env ctx) msg])"
  by (simp add: answer_from_def fst_bind calls_generateLLMResponse calls_prepare_response
      split: sum.splits)

lemma calls_pipeline:
  "fst (pipeline env msg n skip) =
     fst (mapAndScrapeUrls env msg (validatedPagesToCrawl n)) @
       (case snd (mapAndScrapeUrls env msg (validatedPagesToCrawl n)) of Inl e \<Rightarrow> []
        | Inr pages \<Rightarrow> fst (answer_from env msg n skip pages))"
  by (simp add: pipeline_def fst_bind)

lemma fst_respond: "fst (respond r) = fst r"
  by (cases r) (simp add: respond_def split: sum.splits)

lemma snd_respond_Json: "snd (respond r) = JsonResponse p \<longleftrightarrow> snd r = Inr p"
  by (cases r) (simp add: respond_def split: sum.splits)

lemma POST_with_message:
  "message body = Some msg \<Longrightarrow> msg \<noteq> [] \<Longrightarrow>
     POST env body = respond (pipeline env msg (requested_of body) (skip_of body))"
  by (simp add: POST_def)

section \<open>Direct context\<close>

lemma trim_block: "trim (page_block p) = page_block p"
  by (simp add: trim_def page_block_def is_white_space_def)

lemma block_spec: "page_block p = labelled_block (title p) (url p) (content p)"
  by (simp add: page_block_def labelled_block_def numeral_eq_Suc)

lemma trim_labelled: "trim (labelled_block t u c) = labelled_block t u c"
  using trim_block [of "\<lparr>url = u, title = t, content = c\<rparr>"] by (simp add: block_spec)

lemma join_blank: "join [CHR 0x0A, CHR 0x0A] bs = blank_line_joined bs"
proof (induction bs)
  case Nil
  show ?case by simp
next
  case (Cons b bs)
  then show ?case by (cases bs) auto
qed

text \<open>
  Claim C3. With \<open>skipEmbeddings = true\<close> the context is a function of the pages alone:
  every page gives the block \<open>Page: <title>\<close>, \<open>URL: <url>\<close>, \<open>Content:\<close>, the content and
  a line of 19 dashes (trimming changes nothing, since a block starts with \<open>P\<close> and ends
  with a dash), the blocks come in the order of the pages and are joined by a blank line.
  For the single page with title \<open>A\<close>, URL \<open>u1\<close> and content \<open>c1\<close> the context is exactly
  the string of the specification.
\<close>

theorem direct_context_is_joined_blocks:
  "processDirectContext pages =
     blank_line_joined (map (\<lambda>p. labelled_block (title p) (url p) (content p)) pages)
   \<and> processDirectContext [\<lparr>url = ''u1'', title = ''A'', content = ''c1''\<rparr>] =
       ''Page: A\<newline>URL: u1\<newline>Content:\<newline>c1\<newline>-------------------''"
proof
  show "processDirectContext pages =
          blank_line_joined (map (\<lambda>p. labelled_block (title p) (url p) (content p)) pages)"
    by (simp add: processDirectContext_def trim_labelled join_blank block_spec)
  have "processDirectContext [p] = page_block p" for p
    by (simp add: processDirectContext_def trim_block)
  then show "processDirectContext [\<lparr>url = ''u1'', title = ''A'', content = ''c1''\<rparr>] =
               ''Page: A\<newline>URL: u1\<newline>Content:\<newline>c1\<newline>-------------------''"
    by (simp add: page_block_def)
qed

section \<open>Validation of the request\<close>

text \<open>
  Claim C8. A request whose message is missing or empty is answered at once with status
  400 and the error \<open>Message is required\<close>, and no collaborator has been called: the list
  of calls is empty.
\<close>

theorem missing_message_is_400_without_calls:
  "message body = None \<or> message body = Some [] \<Longrightarrow>
     POST env body = ([], ErrorResponse 400 ''Message is required'')"
  by (auto simp: POST_def)

theorem missing_message_is_400_without_calls_witness:
  "(message \<lparr>message = Some [], pagesToCrawl = Some 5, skipEmbeddings = None\<rparr> = None
      \<or> message \<lparr>message = Some [], pagesToCrawl = Some 5, skipEmbeddings = None\<rparr> = Some [])
   \<and> POST (fake [organic_of ''https://a.io/p''] echo_scraper (Some completion))
        \<lparr>message = Some [], pagesToCrawl = Some 5, skipEmbeddings = None\<rparr>
       = ([], ErrorResponse 400 ''Message is required'')"
  using missing_message_is_400_without_calls
    [of "\<lparr>message = Some [], pagesToCrawl = Some 5, skipEmbeddings = None\<rparr>"
        "fake [organic_of ''https://a.io/p''] echo_scraper (Some completion)"]
  by simp

section \<open>Evaluation and results of the stages\<close>

lemmas model_defs =
  POST_def respond_def pipeline_def answer_from_def prepare_response_def build_context_def
  generateLLMResponse_def systemMessage_def processWithEmbeddings_def embed_page_def
  mapAndScrapeUrls_def scrape_def serperSearch_def filteredUrls_def supported_def
  unsupportedDomains_def to_SearchResult_def to_ScrapedPage_def has_url_and_markdown_def
  doc_sourceURL_def validatedPagesToCrawl_def requested_of_def skip_of_def to_sources_def
  detail_in_def slice0_def truthy_def or_else_def first_favicon_def toLowerCase_def
  toLowerCase_char_def processDirectContext_def page_block_def trim_def is_white_space_def
  noValidUrls_def scrapingFailed_def bind_def ret_def throw_def await_def
  char_of_def bit_0

lemmas fake_defs =
  fake_def organic_of_def doc_of_def echo_scraper_def completion_def request_def
  gpt_4o_mini_def

lemma result_prepare_response:
  "snd (prepare_response n skip srcs r) = Inr p \<Longrightarrow>
     sources p = srcs \<and> actualPagesCrawled (crawlInfo p) = length srcs
     \<and> requestedPages (crawlInfo p) = n \<and> embeddingsUsed (crawlInfo p) = (\<not> skip)"
  by (auto simp: prepare_response_def detail_in_def snd_ret snd_throw split: option.splits)

lemma result_answer_from:
  "snd (answer_from env msg n skip pages) = Inr p \<Longrightarrow>
     sources p = to_sources pages \<and> actualPagesCrawled (crawlInfo p) = length pages
     \<and> requestedPages (crawlInfo p) = n \<and> embeddingsUsed (crawlInfo p) = (\<not> skip)"
  by (auto simp: answer_from_def snd_bind_Inr to_sources_def dest!: result_prepare_response)

lemma POST_Json:
  "snd (POST env body) = JsonResponse p \<longleftrightarrow>
     (\<exists>msg. message body = Some msg \<and> msg \<noteq> [] \<and>
        snd (pipeline env msg (requested_of body) (skip_of body)) = Inr p)"
  by (auto simp: POST_def snd_respond_Json split: option.splits)

lemma result_pipeline:
  "snd (pipeline env msg n skip) = Inr p \<longleftrightarrow>
     (\<exists>pages. snd (mapAndScrapeUrls env msg (validatedPagesToCrawl n)) = Inr pages \<and>
        snd (answer_from env msg n skip pages) = Inr p)"
  by (simp add: pipeline_def snd_bind_Inr)


lemma snd_bind:
  "snd (bind m f) = (case snd m of Inl e \<Rightarrow> Inl e | Inr x \<Rightarrow> snd (f x))"
  by (cases m) (auto simp: bind_def split: sum.splits prod.splits)

lemma slice0_nonneg: "0 \<le> n \<Longrightarrow> slice0 n xs = take (nat n) xs"
  by (simp add: slice0_def)

lemma filteredUrls_search:
  "filteredUrls (map to_SearchResult xs) = filter supported (map org_link xs)"
  by (simp add: filteredUrls_def to_SearchResult_def comp_def)

lemma validated_range: "1 \<le> validatedPagesToCrawl n \<and> validatedPagesToCrawl n \<le> 10"
  by (simp add: validatedPagesToCrawl_def)

lemma validated_clamp: "validatedPagesToCrawl n = clamp_1_10 n"
  by (simp add: validatedPagesToCrawl_def clamp_1_10_def)

lemma searched_urls:
  "serper env msg = Organic organic \<Longrightarrow>
     snd (serperSearch env msg (validatedPagesToCrawl n)) = Inr rs \<Longrightarrow>
     filteredUrls rs =
       filter supported (map org_link (take (nat (validatedPagesToCrawl n)) organic))"
  using validated_range [of n]
  by (auto simp: result_serperSearch filteredUrls_search slice0_nonneg)

lemma mapAndScrapeUrls_search:
  "serper env msg = Organic organic \<Longrightarrow> 0 \<le> k \<Longrightarrow>
     mapAndScrapeUrls env msg k =
       bind ([SearchCall msg], Inr (map to_SearchResult (take (nat k) organic)))
         (\<lambda>rs. scrape env (filteredUrls rs))"
  by (simp add: mapAndScrapeUrls_def serperSearch_def bind_await_Inr ret_def slice0_nonneg)

lemma mapAndScrapeUrls_scrape:
  "serper env msg = Organic organic \<Longrightarrow> 0 \<le> k \<Longrightarrow>
     mapAndScrapeUrls env msg k =
       (SearchCall msg # fst (scrape env (filter supported (map org_link (take (nat k) organic)))),
        snd (scrape env (filter supported (map org_link (take (nat k) organic)))))"
  by (simp add: mapAndScrapeUrls_search bind_pair_Inr filteredUrls_search)

lemma not_scrape_context_call: "context_call msg c \<Longrightarrow> \<not> is_scrape_call c"
  by (cases c) simp_all

lemma not_router_context_call: "context_call msg c \<Longrightarrow> \<not> is_router_call c"
  by (cases c) simp_all

lemma context_calls_member:
  "c \<in> set (fst (build_context env msg skip pages)) \<Longrightarrow> context_call msg c"
  using calls_build_context [of msg env skip pages] by (simp add: list_all_iff)

lemma scrape_call_in_answer_from:
  "ScrapeCall us \<notin> set (fst (answer_from env msg n skip pages))"
  by (auto simp: calls_answer_from dest: context_calls_member split: sum.splits)

lemma scrape_call_in_POST:
  assumes "ScrapeCall us \<in> set (fst (POST env body))"
  shows "\<exists>msg rs. message body = Some msg \<and> msg \<noteq> []
           \<and> snd (serperSearch env msg (validatedPagesToCrawl (requested_of body))) = Inr rs
           \<and> us = filteredUrls rs"
proof (cases "message body")
  case None
  with assms show ?thesis by (simp add: POST_def)
next
  case (Some msg)
  with assms have ne: "msg \<noteq> []" by (auto simp: POST_def split: if_splits)
  with Some assms
  have "ScrapeCall us \<in> set (fst (pipeline env msg (requested_of body) (skip_of body)))"
    by (simp add: POST_with_message fst_respond)
  then have "ScrapeCall us \<in>
      set (fst (mapAndScrapeUrls env msg (validatedPagesToCrawl (requested_of body))))"
    by (auto simp: calls_pipeline scrape_call_in_answer_from split: sum.splits)
  then show ?thesis
    using Some ne
    by (cases "snd (serperSearch env msg (validatedPagesToCrawl (requested_of body)))")
      (auto simp: calls_mapAndScrapeUrls split: if_splits)
qed

lemma length_filteredUrls:
  "serper env msg = Organic organic \<Longrightarrow>
     snd (serperSearch env msg (validatedPagesToCrawl n)) = Inr rs \<Longrightarrow>
     int (length (filteredUrls rs)) \<le> validatedPagesToCrawl n"
proof -
  assume a: "serper env msg = Organic organic"
    "snd (serperSearch env msg (validatedPagesToCrawl n)) = Inr rs"
  have "length (filteredUrls rs) \<le> length (take (nat (validatedPagesToCrawl n)) organic)"
    unfolding searched_urls [OF a]
    by (rule order_trans [OF length_filter_le]) simp
  also have "\<dots> \<le> nat (validatedPagesToCrawl n)" by simp
  finally show ?thesis using validated_range [of n] by linarith
qed

section \<open>The number of pages\<close>

text \<open>
  Claim C1. The number of pages used for the search and the scrape is the requested
  \<open>pagesToCrawl\<close> (3 when the request has none) clamped into the range from 1 to 10: 0
  gives 1 and 25 gives 10. For a request with a message the handler runs the search, keeps
  the first so many results, and the URLs handed to the scraper are the supported ones
  among them, so never more than that number.
\<close>

theorem pages_to_crawl_is_clamped:
  "validatedPagesToCrawl (requested_of body) = clamp_1_10 (requested_of body)
   \<and> 1 \<le> validatedPagesToCrawl (requested_of body)
   \<and> validatedPagesToCrawl (requested_of body) \<le> 10
   \<and> (pagesToCrawl body = None \<longrightarrow> validatedPagesToCrawl (requested_of body) = 3)
   \<and> (pagesToCrawl body = Some 0 \<longrightarrow> validatedPagesToCrawl (requested_of body) = 1)
   \<and> (pagesToCrawl body = Some 25 \<longrightarrow> validatedPagesToCrawl (requested_of body) = 10)
   \<and> (message body = Some msg \<and> msg \<noteq> [] \<and> serper env msg = Organic organic \<longrightarrow>
        POST env body =
          respond (bind
            (SearchCall msg # fst (scrape env (filter supported (map org_link
               (take (nat (clamp_1_10 (requested_of body))) organic)))),
             snd (scrape env (filter supported (map org_link
               (take (nat (clamp_1_10 (requested_of body))) organic)))))
            (answer_from env msg (requested_of body) (skip_of body)))
        \<and> (\<forall>us. ScrapeCall us \<in> set (fst (POST env body)) \<longrightarrow>
              us = filter supported (map org_link
                     (take (nat (clamp_1_10 (requested_of body))) organic))
              \<and> int (length us) \<le> clamp_1_10 (requested_of body)))"
proof -
  let ?k = "validatedPagesToCrawl (requested_of body)"
  have k: "1 \<le> ?k" "?k \<le> 10" using validated_range [of "requested_of body"] by simp_all
  have ex: "(pagesToCrawl body = None \<longrightarrow> ?k = 3) \<and> (pagesToCrawl body = Some 0 \<longrightarrow> ?k = 1)
      \<and> (pagesToCrawl body = Some 25 \<longrightarrow> ?k = 10)"
    by (simp add: validatedPagesToCrawl_def requested_of_def)
  have run: "POST env body =
          respond (bind
            (SearchCall msg # fst (scrape env (filter supported (map org_link
               (take (nat ?k) organic)))),
             snd (scrape env (filter supported (map org_link (take (nat ?k) organic)))))
            (answer_from env msg (requested_of body) (skip_of body)))"
    if "message body = Some msg" "msg \<noteq> []" "serper env msg = Organic organic"
    using that k by (simp add: POST_with_message pipeline_def mapAndScrapeUrls_scrape)
  have calls: "us = filter supported (map org_link (take (nat ?k) organic))
      \<and> int (length us) \<le> ?k"
    if "message body = Some msg" "serper env msg = Organic organic"
      "ScrapeCall us \<in> set (fst (POST env body))" for us
  proof -
    from scrape_call_in_POST [OF that(3)] that(1)
    obtain rs where rs: "snd (serperSearch env msg ?k) = Inr rs" "us = filteredUrls rs"
      by auto
    show ?thesis
      using searched_urls [OF that(2) rs(1)] length_filteredUrls [OF that(2) rs(1)] rs(2)
      by simp
  qed
  have eq: "clamp_1_10 (requested_of body) = ?k" by (simp add: validated_clamp)
  show ?thesis
    unfolding eq
  proof (intro conjI impI allI)
    assume "message body = Some msg \<and> msg \<noteq> [] \<and> serper env msg = Organic organic"
    then show "POST env body =
          respond (bind
            (SearchCall msg # fst (scrape env (filter supported (map org_link
               (take (nat ?k) organic)))),
             snd (scrape env (filter supported (map org_link (take (nat ?k) organic)))))
            (answer_from env msg (requested_of body) (skip_of body)))"
      using run by blast
  next
    fix us
    assume "message body = Some msg \<and> msg \<noteq> [] \<and> serper env msg = Organic organic"
      "ScrapeCall us \<in> set (fst (POST env body))"
    then show "us = filter supported (map org_link (take (nat ?k) organic))"
      and "int (length us) \<le> ?k"
      using calls by blast+
  qed (use k ex in simp_all)
qed

theorem pages_to_crawl_is_clamped_witness:
  "message (request ''q'' (Some 0) (Some True)) = Some ''q'' \<and> ''q'' \<noteq> []
   \<and> serper (fake [organic_of ''https://a.io/p'', organic_of ''https://b.io/r'']
         echo_scraper (Some completion)) ''q''
       = Organic [organic_of ''https://a.io/p'', organic_of ''https://b.io/r'']
   \<and> pagesToCrawl (request ''q'' (Some 0) (Some True)) = Some 0
   \<and> validatedPagesToCrawl (requested_of (request ''q'' (Some 0) (Some True))) = 1
   \<and> ScrapeCall [''https://a.io/p''] \<in> set (fst (POST
         (fake [organic_of ''https://a.io/p'', organic_of ''https://b.io/r'']
            echo_scraper (Some completion)) (request ''q'' (Some 0) (Some True))))
   \<and> [''https://a.io/p''] = filter supported (map org_link (take (nat (clamp_1_10
         (requested_of (request ''q'' (Some 0) (Some True)))))
         [organic_of ''https://a.io/p'', organic_of ''https://b.io/r'']))"
proof -
  let ?b = "request ''q'' (Some 0) (Some True)"
  let ?os = "[organic_of ''https://a.io/p'', organic_of ''https://b.io/r'']"
  let ?e = "fake ?os echo_scraper (Some completion)"
  have h: "message ?b = Some ''q''" "''q'' \<noteq> []" "serper ?e ''q'' = Organic ?os"
    "pagesToCrawl ?b = Some 0"
    by (simp_all add: request_def fake_def)
  have c: "ScrapeCall [''https://a.io/p''] \<in> set (fst (POST ?e ?b))"
    by (simp add: model_defs fake_defs)
  from pages_to_crawl_is_clamped [of ?b "''q''" ?e ?os] h c show ?thesis
    by blast
qed

section \<open>The payload\<close>

text \<open>
  Claim C9. In a successful response the sources are the title and URL of every page the
  scrape stage returned (sentinel pages included), one entry per page and in the same
  order, and \<open>actualPagesCrawled\<close> is the length of the sources.
\<close>

theorem sources_list_every_scraped_page:
  "snd (POST env body) = JsonResponse p \<Longrightarrow>
     \<exists>msg pages. message body = Some msg
       \<and> snd (mapAndScrapeUrls env msg (validatedPagesToCrawl (requested_of body))) = Inr pages
       \<and> sources p = map (\<lambda>page. \<lparr>src_title = title page, src_url = url page\<rparr>) pages
       \<and> actualPagesCrawled (crawlInfo p) = length (sources p)"
  by (auto simp: POST_Json result_pipeline to_sources_def dest!: result_answer_from)

theorem sources_list_every_scraped_page_witness:
  "snd (POST (fake [organic_of ''https://a.io/p''] echo_scraper (Some completion))
          (request ''q'' (Some 25) (Some True)))
     = JsonResponse \<lparr>answer = Some ''ok'', selectedModel = Some gpt_4o_mini,
         crawlInfo = \<lparr>requestedPages = 25, actualPagesCrawled = 1, embeddingsUsed = False\<rparr>,
         sources = [\<lparr>src_title = ''p'', src_url = ''https://a.io/p''\<rparr>]\<rparr>
   \<and> (\<exists>msg pages.
         message (request ''q'' (Some 25) (Some True)) = Some msg
         \<and> snd (mapAndScrapeUrls (fake [organic_of ''https://a.io/p''] echo_scraper (Some completion)) msg
                 (validatedPagesToCrawl (requested_of (request ''q'' (Some 25) (Some True))))) = Inr pages
         \<and> [\<lparr>src_title = ''p'', src_url = ''https://a.io/p''\<rparr>]
             = map (\<lambda>page. \<lparr>src_title = title page, src_url = url page\<rparr>) pages
         \<and> (1::nat) = length [\<lparr>src_title = ''p'', src_url = ''https://a.io/p''\<rparr>])"
proof -
  let ?b = "request ''q'' (Some 25) (Some True)"
  let ?e = "fake [organic_of ''https://a.io/p''] echo_scraper (Some completion)"
  have h: "snd (POST ?e ?b)
     = JsonResponse \<lparr>answer = Some ''ok'', selectedModel = Some gpt_4o_mini,
         crawlInfo = \<lparr>requestedPages = 25, actualPagesCrawled = 1, embeddingsUsed = False\<rparr>,
         sources = [\<lparr>src_title = ''p'', src_url = ''https://a.io/p''\<rparr>]\<rparr>"
    by (simp add: model_defs fake_defs)
  from sources_list_every_scraped_page [OF h] h show ?thesis by simp
qed



section \<open>Sentinel pages\<close>

lemma scrape_empty: "scrape env [] = ([], Inr [noValidUrls])"
  by (simp add: scrape_def ret_def)

lemma scrape_failed:
  "us \<noteq> [] \<Longrightarrow> batchScrapeUrls env us = Inr r \<Longrightarrow> \<not> success r \<or> data r = None \<Longrightarrow>
     scrape env us = ([ScrapeCall us], Inr [scrapingFailed])"
  by (auto simp: scrape_def bind_await_Inr ret_def split: option.splits)

lemma POST_after_scrape:
  assumes "message body = Some msg" "msg \<noteq> []" "serper env msg = Organic organic"
    and "scrape env (filter supported (map org_link
           (slice0 (validatedPagesToCrawl (requested_of body)) organic))) = (cs, Inr pages)"
  shows "mapAndScrapeUrls env msg (validatedPagesToCrawl (requested_of body))
           = (SearchCall msg # cs, Inr pages)"
    and "POST env body =
           respond (bind (SearchCall msg # cs, Inr pages)
             (answer_from env msg (requested_of body) (skip_of body)))"
proof -
  have k: "0 \<le> validatedPagesToCrawl (requested_of body)"
    using validated_range [of "requested_of body"] by simp
  show m: "mapAndScrapeUrls env msg (validatedPagesToCrawl (requested_of body))
           = (SearchCall msg # cs, Inr pages)"
    using assms(3,4) k by (simp add: mapAndScrapeUrls_scrape slice0_nonneg)
  show "POST env body =
           respond (bind (SearchCall msg # cs, Inr pages)
             (answer_from env msg (requested_of body) (skip_of body)))"
    using assms(1,2) by (simp add: POST_with_message pipeline_def m)
qed

lemma router_call_after_context:
  "snd (build_context env msg skip pages) = Inr ctx \<Longrightarrow>
     RouterCall (systemMessage env ctx) msg \<in> set (fst (answer_from env msg n skip pages))"
  by (simp add: calls_answer_from)

lemma answer_from_success:
  "snd (build_context env msg skip pages) = Inr ctx \<Longrightarrow>
   notDiamond_create env (systemMessage env ctx) msg = Inr (Some r) \<Longrightarrow>
   res_providers r = Some ps \<Longrightarrow>
     \<exists>p. snd (answer_from env msg n skip pages) = Inr p"
  by (simp add: answer_from_def snd_bind generateLLMResponse_def prepare_response_def
      detail_in_def io_simps)

lemma direct_build_context:
  "build_context env msg True pages = ([], Inr (Text (processDirectContext pages)))"
  by (simp add: build_context_def ret_def)

text \<open>
  Claim C2. When no URL is left after filtering (every search result is on the denylist),
  the scrape stage returns the single sentinel page \<open>No valid URLs\<close> and makes no call:
  the handler's only call so far is the search, and none of its calls is a scrape. The
  request goes on with that page: every successful response has exactly the one sentinel
  entry in its sources and counts one page, and the response is successful whenever the
  context is built and the router returns a result with providers.
\<close>

theorem no_valid_urls_gives_sentinel:
  assumes "message body = Some msg" "msg \<noteq> []" "serper env msg = Organic organic"
    and "filter supported (map org_link
           (slice0 (validatedPagesToCrawl (requested_of body)) organic)) = []"
  shows "scrape env [] = ([], Inr [noValidUrls])
     \<and> mapAndScrapeUrls env msg (validatedPagesToCrawl (requested_of body))
         = ([SearchCall msg], Inr [noValidUrls])
     \<and> list_all (\<lambda>c. \<not> is_scrape_call c) (fst (POST env body))
     \<and> (\<forall>p. snd (POST env body) = JsonResponse p \<longrightarrow>
           sources p = [\<lparr>src_title = ''No Results'', src_url = ''No valid URLs''\<rparr>]
           \<and> actualPagesCrawled (crawlInfo p) = 1)
     \<and> (\<forall>ctx r ps.
           snd (build_context env msg (skip_of body) [noValidUrls]) = Inr ctx
           \<and> notDiamond_create env (systemMessage env ctx) msg = Inr (Some r)
           \<and> res_providers r = Some ps \<longrightarrow>
           (\<exists>p. snd (POST env body) = JsonResponse p))"
proof -
  let ?n = "requested_of body" and ?skip = "skip_of body"
  have s: "scrape env (filter supported (map org_link
            (slice0 (validatedPagesToCrawl ?n) organic))) = ([], Inr [noValidUrls])"
    by (simp add: assms(4) scrape_empty)
  note m = POST_after_scrape(1) [OF assms(1-3) s]
  have P: "POST env body = respond (bind ([SearchCall msg], Inr [noValidUrls])
             (answer_from env msg ?n ?skip))"
    using POST_after_scrape(2) [OF assms(1-3) s] .
  have calls: "fst (POST env body) = SearchCall msg # fst (answer_from env msg ?n ?skip [noValidUrls])"
    by (simp add: P fst_respond bind_pair_Inr)
  have res: "snd (POST env body) = JsonResponse p \<longleftrightarrow>
      snd (answer_from env msg ?n ?skip [noValidUrls]) = Inr p" for p
    by (simp add: P snd_respond_Json bind_pair_Inr)
  have c3: "list_all (\<lambda>c. \<not> is_scrape_call c) (fst (POST env body))"
    unfolding calls list_all_iff
    using scrape_call_in_answer_from [of _ env msg ?n ?skip "[noValidUrls]"]
    by (auto elim: is_scrape_call.elims)
  have c4: "sources p = [\<lparr>src_title = ''No Results'', src_url = ''No valid URLs''\<rparr>]
           \<and> actualPagesCrawled (crawlInfo p) = 1" if "snd (POST env body) = JsonResponse p" for p
    using result_answer_from [of env msg ?n ?skip "[noValidUrls]" p] that
    by (simp add: res to_sources_def noValidUrls_def)
  have c5: "\<exists>p. snd (POST env body) = JsonResponse p"
    if "snd (build_context env msg ?skip [noValidUrls]) = Inr ctx"
      "notDiamond_create env (systemMessage env ctx) msg = Inr (Some r)"
      "res_providers r = Some ps" for ctx r ps
    using answer_from_success [OF that, of ?n] by (simp add: res)
  show ?thesis
    using scrape_empty [of env] m c3 c4 c5 by blast
qed

theorem no_valid_urls_gives_sentinel_witness:
  "message (request ''q'' None None) = Some ''q'' \<and> ''q'' \<noteq> []
   \<and> serper (fake [organic_of ''https://twitter.com/a'', organic_of ''https://www.Reddit.com/r'']
         echo_scraper (Some completion)) ''q''
       = Organic [organic_of ''https://twitter.com/a'', organic_of ''https://www.Reddit.com/r'']
   \<and> filter supported (map org_link
         (slice0 (validatedPagesToCrawl (requested_of (request ''q'' None None)))
            [organic_of ''https://twitter.com/a'', organic_of ''https://www.Reddit.com/r''])) = []
   \<and> mapAndScrapeUrls (fake [organic_of ''https://twitter.com/a'', organic_of ''https://www.Reddit.com/r'']
         echo_scraper (Some completion)) ''q''
         (validatedPagesToCrawl (requested_of (request ''q'' None None)))
       = ([SearchCall ''q''], Inr [noValidUrls])
   \<and> list_all (\<lambda>c. \<not> is_scrape_call c)
         (fst (POST (fake [organic_of ''https://twitter.com/a'', organic_of ''https://www.Reddit.com/r'']
                 echo_scraper (Some completion)) (request ''q'' None None)))
   \<and> (\<exists>p. snd (POST (fake [organic_of ''https://twitter.com/a'', organic_of ''https://www.Reddit.com/r'']
                 echo_scraper (Some completion)) (request ''q'' None None)) = JsonResponse p
          \<and> sources p = [\<lparr>src_title = ''No Results'', src_url = ''No valid URLs''\<rparr>]
          \<and> actualPagesCrawled (crawlInfo p) = 1)"
proof -
  let ?b = "request ''q'' None None"
  let ?os = "[organic_of ''https://twitter.com/a'', organic_of ''https://www.Reddit.com/r'']"
  let ?e = "fake ?os echo_scraper (Some completion)"
  have h1: "message ?b = Some ''q''" and h2: "''q'' \<noteq> []"
    and h3: "serper ?e ''q'' = Organic ?os"
    by (simp_all add: request_def fake_def)
  have h4: "filter supported (map org_link
      (slice0 (validatedPagesToCrawl (requested_of ?b)) ?os)) = []"
    by (simp add: model_defs fake_defs)
  have ctx: "snd (build_context ?e ''q'' (skip_of ?b) [noValidUrls]) = Inr (Chunks [''U'', ''n''])"
    by (simp add: model_defs fake_defs)
  have r: "notDiamond_create ?e (systemMessage ?e (Chunks [''U'', ''n''])) ''q'' = Inr (Some completion)"
    by (simp add: fake_def)
  have ps: "res_providers completion = Some [gpt_4o_mini]"
    by (simp add: completion_def)
  from no_valid_urls_gives_sentinel [OF h1 h2 h3 h4] ctx r ps h1 h2 h3 h4 show ?thesis
    by blast
qed

text \<open>
  When the scraper answers with \<open>success = false\<close> or without a data field, the scrape
  stage raises no error and returns the single page marked \<open>Scraping failed\<close>. The handler
  goes on with it: in direct mode the router is asked with the block of that page, and in
  embedding mode the page is split, embedded and searched, and the router is asked with
  the excerpts found.
\<close>

lemma build_context_single_page:
  assumes "splitText env 800 200 (content page) = Inr texts"
    and "fromTexts env texts (url page, title page) = Inr st"
    and "similaritySearch env st msg 2 = Inr cs"
  shows "build_context env msg False [page] =
           ([SplitCall (content page), FromTextsCall texts, SimilaritySearchCall msg 2],
            Inr (Chunks cs))"
  using assms
  by (simp add: build_context_def processWithEmbeddings_def embed_page_def bind_def ret_def
      await_def)

lemma scraping_failed_page:
  assumes "message body = Some msg" "msg \<noteq> []" "serper env msg = Organic organic"
    and "us = filter supported (map org_link
           (slice0 (validatedPagesToCrawl (requested_of body)) organic))"
    and "us \<noteq> []" "batchScrapeUrls env us = Inr r" "\<not> success r \<or> data r = None"
  shows "mapAndScrapeUrls env msg (validatedPagesToCrawl (requested_of body)) =
           ([SearchCall msg, ScrapeCall us],
            Inr [\<lparr>url = ''Scraping failed'', title = ''Error'',
                  content = ''Failed to scrape content from the provided URLs.''\<rparr>])"
    and "skip_of body \<Longrightarrow>
           fst (POST env body) =
             [SearchCall msg, ScrapeCall us,
              RouterCall ''Answer based on the following pages of content: Page: Error\<newline>URL: Scraping failed\<newline>Content:\<newline>Failed to scrape content from the provided URLs.\<newline>-------------------'' msg]"
    and "\<not> skip_of body \<Longrightarrow>
         splitText env 800 200 ''Failed to scrape content from the provided URLs.'' = Inr texts \<Longrightarrow>
         fromTexts env texts (''Scraping failed'', ''Error'') = Inr st \<Longrightarrow>
         similaritySearch env st msg 2 = Inr cs \<Longrightarrow>
           fst (POST env body) =
             [SearchCall msg, ScrapeCall us,
              SplitCall ''Failed to scrape content from the provided URLs.'',
              FromTextsCall texts, SimilaritySearchCall msg 2,
              RouterCall (''Answer based on the following relevant excerpts: ''
                            @ stringify env cs) msg]"
proof -
  let ?n = "requested_of body" and ?skip = "skip_of body"
  have s: "scrape env (filter supported (map org_link
            (slice0 (validatedPagesToCrawl ?n) organic))) = ([ScrapeCall us], Inr [scrapingFailed])"
    using scrape_failed [OF assms(5-7)] assms(4) by simp
  show "mapAndScrapeUrls env msg (validatedPagesToCrawl ?n) =
           ([SearchCall msg, ScrapeCall us],
            Inr [\<lparr>url = ''Scraping failed'', title = ''Error'',
                  content = ''Failed to scrape content from the provided URLs.''\<rparr>])"
    using POST_after_scrape(1) [OF assms(1-3) s] by (simp add: scrapingFailed_def)
  have calls: "fst (POST env body) =
      [SearchCall msg, ScrapeCall us] @ fst (answer_from env msg ?n ?skip [scrapingFailed])"
    using POST_after_scrape(2) [OF assms(1-3) s] by (simp add: fst_respond bind_pair_Inr)
  show "fst (POST env body) =
             [SearchCall msg, ScrapeCall us,
              RouterCall ''Answer based on the following pages of content: Page: Error\<newline>URL: Scraping failed\<newline>Content:\<newline>Failed to scrape content from the provided URLs.\<newline>-------------------'' msg]"
    if "?skip"
  proof -
    have "processDirectContext [scrapingFailed] = page_block scrapingFailed"
      by (simp add: processDirectContext_def trim_block)
    then show ?thesis
      using that
      by (simp add: calls calls_answer_from direct_build_context systemMessage_def
          page_block_def scrapingFailed_def)
  qed
  show "fst (POST env body) =
             [SearchCall msg, ScrapeCall us,
              SplitCall ''Failed to scrape content from the provided URLs.'',
              FromTextsCall texts, SimilaritySearchCall msg 2,
              RouterCall (''Answer based on the following relevant excerpts: ''
                            @ stringify env cs) msg]"
    if "\<not> ?skip"
      "splitText env 800 200 ''Failed to scrape content from the provided URLs.'' = Inr texts"
      "fromTexts env texts (''Scraping failed'', ''Error'') = Inr st"
      "similaritySearch env st msg 2 = Inr cs"
  proof -
    have "build_context env msg False [scrapingFailed] =
           ([SplitCall (content scrapingFailed), FromTextsCall texts, SimilaritySearchCall msg 2],
            Inr (Chunks cs))"
      using that(2-4)
      by (intro build_context_single_page [where texts = texts and st = st])
        (simp_all add: scrapingFailed_def)
    then show ?thesis
      using that(1)
      by (simp add: calls calls_answer_from systemMessage_def scrapingFailed_def)
  qed
qed

lemma scraping_failed_request_in_embedding_mode:
  "snd (POST (fake [organic_of ''https://a.io/p''] failing_scraper (Some completion))
          (request ''q'' None None))
     = JsonResponse \<lparr>answer = Some ''ok'', selectedModel = Some gpt_4o_mini,
         crawlInfo = \<lparr>requestedPages = 3, actualPagesCrawled = 1, embeddingsUsed = True\<rparr>,
         sources = [\<lparr>src_title = ''Error'', src_url = ''Scraping failed''\<rparr>]\<rparr>
   \<and> RouterCall ''Answer based on the following relevant excerpts: Fa'' ''q''
       \<in> set (fst (POST (fake [organic_of ''https://a.io/p''] failing_scraper (Some completion))
                  (request ''q'' None None)))"
  by (simp add: model_defs fake_defs failing_scraper_def)

text \<open>
  Claim C7 says that a scraper that returns no data gives the single sentinel page
  \<open>Scraping failed\<close> and that the handler goes on to ask the router. The sibling cases
  (no URL left, \<open>success = false\<close>, no data field) do so. A scraper that reports success
  with an empty array of documents does not: for the one supported search result
  \<open>https://a.io/p\<close> the scrape stage returns no page at all. In embedding mode there is
  then no vector store, the read of \<open>similaritySearch\<close> fails, and the response is an
  error with status 500 before the router is asked; in direct mode the router is asked
  with an empty context and the payload has no source.
\<close>

theorem empty_scrape_result_gives_no_sentinel:
  "batchScrapeUrls (fake [organic_of ''https://a.io/p''] empty_scraper (Some completion))
       [''https://a.io/p'']
     = Inr \<lparr>success = True, data = Some []\<rparr>
   \<and> mapAndScrapeUrls (fake [organic_of ''https://a.io/p''] empty_scraper (Some completion))
         ''q'' (validatedPagesToCrawl 3)
       = ([SearchCall ''q'', ScrapeCall [''https://a.io/p'']], Inr [])
   \<and> POST (fake [organic_of ''https://a.io/p''] empty_scraper (Some completion))
         (request ''q'' None None)
       = ([SearchCall ''q'', ScrapeCall [''https://a.io/p'']],
          ErrorResponse 500 (error_message (TypeError ''similaritySearch'')))
   \<and> POST (fake [organic_of ''https://a.io/p''] empty_scraper (Some completion))
         (request ''q'' None (Some True))
       = ([SearchCall ''q'', ScrapeCall [''https://a.io/p''],
           RouterCall ''Answer based on the following pages of content: '' ''q''],
          JsonResponse \<lparr>answer = Some ''ok'', selectedModel = Some gpt_4o_mini,
            crawlInfo = \<lparr>requestedPages = 3, actualPagesCrawled = 0, embeddingsUsed = False\<rparr>,
            sources = []\<rparr>)"
  by (simp add: model_defs fake_defs empty_scraper_def)

section \<open>The router's answer\<close>

lemma snd_respond:
  "snd (respond r) =
     (case snd r of Inl e \<Rightarrow> ErrorResponse 500 (error_message e) | Inr p \<Rightarrow> JsonResponse p)"
  by (cases r) (simp add: respond_def split: sum.splits)

lemma no_router_call_in_context:
  "filter is_router_call (fst (build_context env msg skip pages)) = []"
  using calls_build_context [of msg env skip pages]
  by (auto simp: filter_empty_conv list_all_iff dest: not_router_context_call)

lemma no_router_call_in_mapAndScrapeUrls:
  "filter is_router_call (fst (mapAndScrapeUrls env msg n)) = []"
  by (simp add: calls_mapAndScrapeUrls split: sum.splits)

lemma result_after_router:
  "snd (bind (generateLLMResponse env ctx msg) (prepare_response n skip srcs)) =
     (case notDiamond_create env (systemMessage env ctx) msg of
        Inl e \<Rightarrow> Inl e
      | Inr None \<Rightarrow> Inl (Error ''Failed to generate LLM response'')
      | Inr (Some r) \<Rightarrow>
          snd (prepare_response n skip srcs
                 \<lparr>llm_content = res_content r, providers = res_providers r\<rparr>))"
  by (simp add: generateLLMResponse_def snd_bind io_simps split: sum.splits option.splits)

text \<open>What the handler has done when the router has been called.\<close>

lemma router_call_in_POST:
  assumes "RouterCall sm m \<in> set (fst (POST env body))"
  shows "\<exists>pages ctx. message body = Some m \<and> m \<noteq> []
      \<and> snd (mapAndScrapeUrls env m (validatedPagesToCrawl (requested_of body))) = Inr pages
      \<and> snd (build_context env m (skip_of body) pages) = Inr ctx
      \<and> sm = systemMessage env ctx
      \<and> snd (POST env body) =
          (case snd (bind (generateLLMResponse env ctx m)
                 (prepare_response (requested_of body) (skip_of body) (to_sources pages))) of
             Inl e \<Rightarrow> ErrorResponse 500 (error_message e) | Inr p \<Rightarrow> JsonResponse p)
      \<and> filter is_router_call (fst (POST env body)) = [RouterCall sm m]"
proof (cases "message body")
  case None
  with assms show ?thesis by (simp add: POST_def)
next
  case (Some msg)
  let ?n = "requested_of body" and ?skip = "skip_of body"
  let ?M = "mapAndScrapeUrls env msg (validatedPagesToCrawl ?n)"
  from Some assms have ne: "msg \<noteq> []" by (auto simp: POST_def split: if_splits)
  have P: "POST env body = respond (pipeline env msg ?n ?skip)"
    using Some ne by (rule POST_with_message)
  from assms have in_pipe: "RouterCall sm m \<in> set (fst (pipeline env msg ?n ?skip))"
    by (simp add: P fst_respond)
  have notM: "RouterCall sm m \<notin> set (fst ?M)"
    using no_router_call_in_mapAndScrapeUrls [of env msg "validatedPagesToCrawl ?n"]
    by (auto simp: filter_empty_conv)
  from in_pipe notM obtain pages where pages: "snd ?M = Inr pages"
    and in_ans: "RouterCall sm m \<in> set (fst (answer_from env msg ?n ?skip pages))"
    by (cases "snd ?M") (auto simp: calls_pipeline)
  let ?B = "build_context env msg ?skip pages"
  have notB: "RouterCall sm m \<notin> set (fst ?B)"
    using no_router_call_in_context [of env msg ?skip pages]
    by (auto simp: filter_empty_conv)
  from in_ans notB obtain ctx where ctx: "snd ?B = Inr ctx"
    and eq: "sm = systemMessage env ctx" "m = msg"
    by (cases "snd ?B") (auto simp: calls_answer_from)
  have res: "snd (POST env body) =
          (case snd (bind (generateLLMResponse env ctx msg)
                 (prepare_response ?n ?skip (to_sources pages))) of
             Inl e \<Rightarrow> ErrorResponse 500 (error_message e) | Inr p \<Rightarrow> JsonResponse p)"
    by (simp add: P snd_respond pipeline_def answer_from_def snd_bind [of ?M]
        snd_bind [of ?B] pages ctx)
  have cnt: "filter is_router_call (fst (POST env body)) = [RouterCall sm m]"
    by (simp add: P fst_respond calls_pipeline calls_answer_from pages ctx eq
        no_router_call_in_mapAndScrapeUrls no_router_call_in_context)
  show ?thesis
    using Some ne pages ctx eq res cnt by simp
qed

text \<open>
  What the handler does when the router has been called: no result gives status 500 with
  \<open>Failed to generate LLM response\<close>, a result without providers gives status 500 at the
  read of \<open>providers[0]\<close>, and the router is called exactly once, so the handler tries no
  other provider itself. An object with a detail field alone is such a result.
\<close>

lemma router_without_result_or_providers:
  assumes "RouterCall sm m \<in> set (fst (POST env body))"
  shows "(notDiamond_create env sm m = Inr None \<longrightarrow>
            snd (POST env body) = ErrorResponse 500 ''Failed to generate LLM response'')
     \<and> (\<forall>r. notDiamond_create env sm m = Inr (Some r) \<and> res_providers r = None \<longrightarrow>
            snd (POST env body) = ErrorResponse 500 (error_message (TypeError ''0'')))
     \<and> length (filter is_router_call (fst (POST env body))) = 1"
proof -
  from router_call_in_POST [OF assms] obtain pages ctx where
    sm: "sm = systemMessage env ctx"
    and res: "snd (POST env body) =
          (case snd (bind (generateLLMResponse env ctx m)
                 (prepare_response (requested_of body) (skip_of body) (to_sources pages))) of
             Inl e \<Rightarrow> ErrorResponse 500 (error_message e) | Inr p \<Rightarrow> JsonResponse p)"
    and cnt: "filter is_router_call (fst (POST env body)) = [RouterCall sm m]"
    by blast
  have a: "snd (POST env body) = ErrorResponse 500 ''Failed to generate LLM response''"
    if "notDiamond_create env sm m = Inr None"
    using that by (simp add: res result_after_router sm [symmetric])
  have b: "snd (POST env body) = ErrorResponse 500 (error_message (TypeError ''0''))"
    if "notDiamond_create env sm m = Inr (Some r)" "res_providers r = None" for r
    using that
    by (simp add: res result_after_router sm [symmetric]
        prepare_response_def detail_in_def snd_throw)
  show ?thesis
    using a b cnt by auto
qed

lemma detail_alone_fails_at_providers:
  "POST (fake [organic_of ''https://a.io/p''] echo_scraper (Some error_detail))
      (request ''q'' None (Some True))
     = ([SearchCall ''q'', ScrapeCall [''https://a.io/p''],
         RouterCall ''Answer based on the following pages of content: Page: p\<newline>URL: https://a.io/p\<newline>Content:\<newline>body\<newline>-------------------'' ''q''],
        ErrorResponse 500 (error_message (TypeError ''0'')))"
  by (simp add: model_defs fake_defs error_detail_def)

text \<open>
  Claim C5 says that a result with an error-detail field instead of content fails the
  request. The handler tests for the detail field, but on the object rebuilt by
  \<open>generateLLMResponse\<close>, whose keys are \<open>content\<close> and \<open>providers\<close>: the test never
  holds. For a result with the detail \<open>quota\<close>, no content and a list of providers the
  response has status 200: a payload is assembled, with no answer and the first provider
  as the selected model.
\<close>

theorem detail_with_providers_is_answered:
  "res_detail detail_with_providers = Some ''quota''
   \<and> res_content detail_with_providers = None
   \<and> generateLLMResponse (fake [organic_of ''https://a.io/p''] echo_scraper
          (Some detail_with_providers)) (Text ''c'') ''q''
       = ([RouterCall ''Answer based on the following pages of content: c'' ''q''],
          Inr \<lparr>llm_content = None, providers = Some [gpt_4o_mini]\<rparr>)
   \<and> POST (fake [organic_of ''https://a.io/p''] echo_scraper (Some detail_with_providers))
        (request ''q'' None (Some True))
       = ([SearchCall ''q'', ScrapeCall [''https://a.io/p''],
           RouterCall ''Answer based on the following pages of content: Page: p\<newline>URL: https://a.io/p\<newline>Content:\<newline>body\<newline>-------------------'' ''q''],
          JsonResponse \<lparr>answer = None, selectedModel = Some gpt_4o_mini,
            crawlInfo = \<lparr>requestedPages = 3, actualPagesCrawled = 1, embeddingsUsed = False\<rparr>,
            sources = [\<lparr>src_title = ''p'', src_url = ''https://a.io/p''\<rparr>]\<rparr>)"
  by (simp add: model_defs fake_defs detail_with_providers_def)

section \<open>Embedding mode\<close>

lemma build_context_embedding:
  assumes "returns_at_most_k env" "snd (build_context env msg False pages) = Inr ctx"
  shows "\<exists>cs. ctx = Chunks cs \<and> length cs \<le> 2"
proof -
  from assms(2) obtain st cs where "similaritySearch env st msg 2 = Inr cs" "ctx = Chunks cs"
    by (auto simp: build_context_def snd_bind_Inr snd_ret snd_throw snd_await
        split: option.splits)
  with assms(1) show ?thesis by (auto simp: returns_at_most_k_def)
qed

lemma similarity_call_in_POST:
  assumes "SimilaritySearchCall q k \<in> set (fst (POST env body))"
  shows "message body = Some q \<and> k = 2"
proof (cases "message body")
  case None
  with assms show ?thesis by (simp add: POST_def)
next
  case (Some msg)
  let ?n = "requested_of body" and ?skip = "skip_of body"
  let ?M = "mapAndScrapeUrls env msg (validatedPagesToCrawl ?n)"
  from Some assms have ne: "msg \<noteq> []" by (auto simp: POST_def split: if_splits)
  with Some assms
  have "SimilaritySearchCall q k \<in> set (fst (pipeline env msg ?n ?skip))"
    by (simp add: POST_with_message fst_respond)
  then obtain pages where
    "SimilaritySearchCall q k \<in> set (fst (answer_from env msg ?n ?skip pages))"
    by (cases "snd ?M") (auto simp: calls_pipeline calls_mapAndScrapeUrls split: if_splits sum.splits)
  then have "SimilaritySearchCall q k \<in> set (fst (build_context env msg ?skip pages))"
    by (auto simp: calls_answer_from split: sum.splits)
  from context_calls_member [OF this] Some show ?thesis by simp
qed

text \<open>
  Claim C6. In embedding mode (\<open>skipEmbeddings\<close> not true) the similarity search is always
  asked for 2 results, and its answer is passed to the router as it is: with a vector
  store that returns at most the number of results it is asked for, the context given to
  the router has at most 2 chunks, whatever the pages and their windows.
\<close>

theorem embedding_context_has_at_most_two_chunks:
  assumes "returns_at_most_k env" "skipEmbeddings body \<noteq> Some True"
  shows "(\<forall>sm m. RouterCall sm m \<in> set (fst (POST env body)) \<longrightarrow>
            (\<exists>cs. sm = systemMessage env (Chunks cs) \<and> length cs \<le> 2))
     \<and> (\<forall>q k. SimilaritySearchCall q k \<in> set (fst (POST env body)) \<longrightarrow> k = 2)
     \<and> (\<forall>msg pages ctx. snd (build_context env msg False pages) = Inr ctx \<longrightarrow>
            (\<exists>cs. ctx = Chunks cs \<and> length cs \<le> 2))"
proof -
  have skip: "skip_of body = False"
    using assms(2) by (cases "skipEmbeddings body") (auto simp: skip_of_def)
  have a: "\<exists>cs. sm = systemMessage env (Chunks cs) \<and> length cs \<le> 2"
    if "RouterCall sm m \<in> set (fst (POST env body))" for sm m
  proof -
    from router_call_in_POST [OF that] obtain pages ctx where
      "snd (build_context env m (skip_of body) pages) = Inr ctx" "sm = systemMessage env ctx"
      by blast
    with build_context_embedding [OF assms(1), of m pages ctx] skip show ?thesis by auto
  qed
  show ?thesis
    using a similarity_call_in_POST [of _ _ env body] build_context_embedding [OF assms(1)]
    by blast
qed

theorem embedding_context_has_at_most_two_chunks_witness:
  "returns_at_most_k (fake [organic_of ''https://a.io/p'', organic_of ''https://b.io/r'']
       echo_scraper (Some completion))
   \<and> skipEmbeddings (request ''q'' None None) \<noteq> Some True
   \<and> RouterCall ''Answer based on the following relevant excerpts: bo'' ''q''
       \<in> set (fst (POST (fake [organic_of ''https://a.io/p'', organic_of ''https://b.io/r'']
                  echo_scraper (Some completion)) (request ''q'' None None)))
   \<and> SimilaritySearchCall ''q'' 2
       \<in> set (fst (POST (fake [organic_of ''https://a.io/p'', organic_of ''https://b.io/r'']
                  echo_scraper (Some completion)) (request ''q'' None None)))
   \<and> (\<exists>cs. ''Answer based on the following relevant excerpts: bo''
           = systemMessage (fake [organic_of ''https://a.io/p'', organic_of ''https://b.io/r'']
               echo_scraper (Some completion)) (Chunks cs)
         \<and> length cs \<le> 2)"
proof -
  let ?b = "request ''q'' None None"
  let ?e = "fake [organic_of ''https://a.io/p'', organic_of ''https://b.io/r'']
       echo_scraper (Some completion)"
  have h1: "returns_at_most_k ?e"
    by (simp add: returns_at_most_k_def fake_def)
  have h2: "skipEmbeddings ?b \<noteq> Some True"
    by (simp add: request_def)
  have c: "RouterCall ''Answer based on the following relevant excerpts: bo'' ''q''
       \<in> set (fst (POST ?e ?b))"
    "SimilaritySearchCall ''q'' 2 \<in> set (fst (POST ?e ?b))"
    by (simp_all add: model_defs fake_defs)
  from embedding_context_has_at_most_two_chunks [OF h1 h2] c h1 h2 show ?thesis
    by blast
qed

section \<open>The denylist\<close>

lemma startsWith_iff: "startsWith s sub \<longleftrightarrow> (\<exists>post. s = sub @ post)"
  by (induction s sub rule: startsWith.induct) auto

lemma includes_str_iff: "includes_str s sub \<longleftrightarrow> (\<exists>pre post. s = pre @ sub @ post)"
proof (induction s)
  case Nil
  show ?case by auto
next
  case (Cons c cs)
  have "(\<exists>pre post. c # cs = pre @ sub @ post) \<longleftrightarrow>
          (\<exists>post. c # cs = sub @ post) \<or> (\<exists>pre post. cs = pre @ sub @ post)"
  proof
    assume "\<exists>pre post. c # cs = pre @ sub @ post"
    then obtain pre post where eq: "c # cs = pre @ sub @ post" by blast
    show "(\<exists>post. c # cs = sub @ post) \<or> (\<exists>pre post. cs = pre @ sub @ post)"
    proof (cases pre)
      case Nil
      with eq show ?thesis by auto
    next
      case (Cons a pre')
      with eq have "cs = pre' @ sub @ post" by simp
      then show ?thesis by blast
    qed
  next
    assume "(\<exists>post. c # cs = sub @ post) \<or> (\<exists>pre post. cs = pre @ sub @ post)"
    then show "\<exists>pre post. c # cs = pre @ sub @ post"
    proof
      assume "\<exists>post. c # cs = sub @ post"
      then obtain post where "c # cs = [] @ sub @ post" by auto
      then show ?thesis by blast
    next
      assume "\<exists>pre post. cs = pre @ sub @ post"
      then obtain pre post where "c # cs = (c # pre) @ sub @ post" by auto
      then show ?thesis by blast
    qed
  qed
  with Cons show ?case by (simp add: startsWith_iff)
qed

lemma supported_iff: "supported u \<longleftrightarrow> \<not> denylisted u"
  by (simp add: supported_def denylisted_def includes_str_iff list_ex_iff)

lemma filteredUrls_supported: "u \<in> set (filteredUrls rs) \<Longrightarrow> supported u"
  by (simp add: filteredUrls_def)

lemma sentinels_supported: "supported (url noValidUrls)" "supported (url scrapingFailed)"
  by (simp_all add: model_defs)

lemma scraped_url:
  "has_url_and_markdown d \<Longrightarrow> doc_sourceURL d = Some (url (to_ScrapedPage d))"
  by (auto simp: has_url_and_markdown_def to_ScrapedPage_def truthy_def or_else_def
      split: option.splits)

lemma scrape_pages_supported:
  assumes "reports_requested_urls env" "\<forall>u \<in> set us. supported u"
    and "snd (scrape env us) = Inr pages" "page \<in> set pages"
  shows "supported (url page)"
proof (cases "us = []")
  case True
  with assms(3,4) show ?thesis by (auto simp: scrape_empty sentinels_supported)
next
  case False
  show ?thesis
  proof (cases "batchScrapeUrls env us")
    case (Inl e)
    with False assms(3) show ?thesis by (simp add: scrape_def bind_await_Inl)
  next
    case (Inr r)
    show ?thesis
    proof (cases "\<not> success r \<or> data r = None")
      case True
      from scrape_failed [OF False Inr True] assms(3,4) show ?thesis
        by (auto simp: sentinels_supported)
    next
      case ok: False
      then obtain docs where docs: "data r = Some docs" and s: "success r" by auto
      with False Inr assms(3)
      have "pages = map to_ScrapedPage (filter has_url_and_markdown docs)"
        by (simp add: scrape_def bind_await_Inr ret_def)
      with assms(4) obtain d where d: "d \<in> set docs" "has_url_and_markdown d"
        "page = to_ScrapedPage d" by auto
      from assms(1) Inr docs d(1) scraped_url [OF d(2)] have "url (to_ScrapedPage d) \<in> set us"
        unfolding reports_requested_urls_def by blast
      with assms(2) d(3) show ?thesis by simp
    qed
  qed
qed

lemma pages_of_POST:
  assumes "snd (POST env body) = JsonResponse p"
  shows "\<exists>msg rs pages. snd (serperSearch env msg (validatedPagesToCrawl (requested_of body))) = Inr rs
     \<and> snd (scrape env (filteredUrls rs)) = Inr pages \<and> sources p = to_sources pages"
proof -
  from assms obtain msg pages where
    m: "snd (mapAndScrapeUrls env msg (validatedPagesToCrawl (requested_of body))) = Inr pages"
    and a: "snd (answer_from env msg (requested_of body) (skip_of body) pages) = Inr p"
    by (auto simp: POST_Json result_pipeline)
  from m obtain rs where "snd (serperSearch env msg (validatedPagesToCrawl (requested_of body))) = Inr rs"
    "snd (scrape env (filteredUrls rs)) = Inr pages"
    by (auto simp: mapAndScrapeUrls_def snd_bind_Inr)
  with result_answer_from [OF a] show ?thesis by blast
qed

text \<open>
  Claim C4, as amended. Filtering comes after the cap on the number of results and only
  removes URLs: the filtered URLs are among the links of the first \<open>maxResults\<close> search
  results and are not more than these (so at most \<open>maxResults\<close>), and none of them contains
  a denylisted domain (case-insensitive substring match). No URL with a denylisted domain
  is ever handed to the scraper. The sources of a response are the source URLs the
  scraper reports, which the handler does not filter again: none of them contains a
  denylisted domain provided the scraper reports only URLs it was asked to scrape.
\<close>

theorem denylist_filtering_before_scraping:
  "(serper env msg = Organic organic \<longrightarrow>
      (\<exists>rs. snd (serperSearch env msg n) = Inr rs
         \<and> set (filteredUrls rs) \<subseteq> set (map org_link (slice0 n organic))
         \<and> length (filteredUrls rs) \<le> length (slice0 n organic)
         \<and> (0 \<le> n \<longrightarrow> int (length (filteredUrls rs)) \<le> n)
         \<and> (\<forall>u \<in> set (filteredUrls rs). \<not> denylisted u)))
   \<and> (\<forall>us. ScrapeCall us \<in> set (fst (POST env body)) \<longrightarrow> (\<forall>u \<in> set us. \<not> denylisted u))
   \<and> (reports_requested_urls env \<longrightarrow>
        (\<forall>p. snd (POST env body) = JsonResponse p \<longrightarrow>
           (\<forall>s \<in> set (sources p). \<not> denylisted (src_url s))))"
proof (intro conjI impI allI ballI)
  assume o: "serper env msg = Organic organic"
  let ?rs = "map to_SearchResult (slice0 n organic)"
  have f: "filteredUrls ?rs = filter supported (map org_link (slice0 n organic))"
    by (rule filteredUrls_search)
  have len: "length (filteredUrls ?rs) \<le> length (slice0 n organic)"
    unfolding f by (rule order_trans [OF length_filter_le]) simp
  have "int (length (filteredUrls ?rs)) \<le> n" if "0 \<le> n"
  proof -
    have "length (slice0 n organic) \<le> nat n" using that by (simp add: slice0_nonneg)
    with len that show ?thesis by linarith
  qed
  moreover have "set (filteredUrls ?rs) \<subseteq> set (map org_link (slice0 n organic))"
    unfolding f by auto
  moreover have "\<forall>u \<in> set (filteredUrls ?rs). \<not> denylisted u"
    using filteredUrls_supported [of _ ?rs] by (auto simp: supported_iff)
  ultimately show "\<exists>rs. snd (serperSearch env msg n) = Inr rs
         \<and> set (filteredUrls rs) \<subseteq> set (map org_link (slice0 n organic))
         \<and> length (filteredUrls rs) \<le> length (slice0 n organic)
         \<and> (0 \<le> n \<longrightarrow> int (length (filteredUrls rs)) \<le> n)
         \<and> (\<forall>u \<in> set (filteredUrls rs). \<not> denylisted u)"
    using result_serperSearch [OF o, of n] len by blast
next
  fix us u
  assume "ScrapeCall us \<in> set (fst (POST env body))" "u \<in> set us"
  with scrape_call_in_POST [of us env body] show "\<not> denylisted u"
    by (auto simp: supported_iff [symmetric] dest: filteredUrls_supported)
next
  fix p s
  assume r: "reports_requested_urls env" and p: "snd (POST env body) = JsonResponse p"
    and s: "s \<in> set (sources p)"
  from pages_of_POST [OF p] obtain rs pages where
    sc: "snd (scrape env (filteredUrls rs)) = Inr pages" and src: "sources p = to_sources pages"
    by blast
  from s src obtain page where page: "page \<in> set pages" "src_url s = url page"
    by (auto simp: to_sources_def)
  have "\<forall>u \<in> set (filteredUrls rs). supported u"
    by (simp add: filteredUrls_supported)
  from scrape_pages_supported [OF r this sc page(1)] page(2)
  show "\<not> denylisted (src_url s)" by (simp add: supported_iff)
qed

theorem denylist_filtering_before_scraping_witness:
  "serper (fake [organic_of ''https://Twitter.com/x'', organic_of ''https://a.io/p'']
       echo_scraper (Some completion)) ''q''
     = Organic [organic_of ''https://Twitter.com/x'', organic_of ''https://a.io/p'']
   \<and> reports_requested_urls (fake [organic_of ''https://Twitter.com/x'', organic_of ''https://a.io/p'']
       echo_scraper (Some completion))
   \<and> ScrapeCall [''https://a.io/p'']
       \<in> set (fst (POST (fake [organic_of ''https://Twitter.com/x'', organic_of ''https://a.io/p'']
                  echo_scraper (Some completion)) (request ''q'' (Some 2) (Some True))))
   \<and> snd (POST (fake [organic_of ''https://Twitter.com/x'', organic_of ''https://a.io/p'']
             echo_scraper (Some completion)) (request ''q'' (Some 2) (Some True)))
       = JsonResponse \<lparr>answer = Some ''ok'', selectedModel = Some gpt_4o_mini,
           crawlInfo = \<lparr>requestedPages = 2, actualPagesCrawled = 1, embeddingsUsed = False\<rparr>,
           sources = [\<lparr>src_title = ''p'', src_url = ''https://a.io/p''\<rparr>]\<rparr>
   \<and> \<not> denylisted ''https://a.io/p''
   \<and> (\<exists>rs. snd (serperSearch (fake [organic_of ''https://Twitter.com/x'', organic_of ''https://a.io/p'']
                 echo_scraper (Some completion)) ''q'' 2) = Inr rs
         \<and> int (length (filteredUrls rs)) \<le> 2)"
proof -
  let ?os = "[organic_of ''https://Twitter.com/x'', organic_of ''https://a.io/p'']"
  let ?e = "fake ?os echo_scraper (Some completion)"
  let ?b = "request ''q'' (Some 2) (Some True)"
  let ?p = "\<lparr>answer = Some ''ok'', selectedModel = Some gpt_4o_mini,
           crawlInfo = \<lparr>requestedPages = 2, actualPagesCrawled = 1, embeddingsUsed = False\<rparr>,
           sources = [\<lparr>src_title = ''p'', src_url = ''https://a.io/p''\<rparr>]\<rparr>"
  have h1: "serper ?e ''q'' = Organic ?os"
    by (simp add: fake_def)
  have h2: "reports_requested_urls ?e"
    by (auto simp: reports_requested_urls_def fake_def echo_scraper_def doc_sourceURL_def
        doc_of_def)
  have h3: "ScrapeCall [''https://a.io/p''] \<in> set (fst (POST ?e ?b))"
    by (simp add: model_defs fake_defs)
  have h4: "snd (POST ?e ?b) = JsonResponse ?p"
    by (simp add: model_defs fake_defs)
  have s: "src_url \<lparr>src_title = ''p'', src_url = ''https://a.io/p''\<rparr> = ''https://a.io/p''"
    "sources ?p = [\<lparr>src_title = ''p'', src_url = ''https://a.io/p''\<rparr>]"
    by simp_all
  from denylist_filtering_before_scraping [of ?e "''q''" ?os 2 ?b] h1 h2 h3 h4
  have "\<not> denylisted ''https://a.io/p''"
    and "\<exists>rs. snd (serperSearch ?e ''q'' 2) = Inr rs \<and> int (length (filteredUrls rs)) \<le> 2"
    by auto
  with h1 h2 h3 h4 show ?thesis by blast
qed

text \<open>
  Claim C4, as stated, says that no URL with a denylisted domain ever appears in the
  sources. The search returns \<open>https://a.io/p\<close>, which passes the filter, and the scraper
  answers with one document whose source URL is \<open>https://twitter.com/x\<close>: the response is
  successful and that URL is its source.
\<close>

theorem denylisted_url_in_sources_counterexample:
  "snd (POST (fake [organic_of ''https://a.io/p''] redirecting_scraper (Some completion))
          (request ''q'' None (Some True)))
     = JsonResponse \<lparr>answer = Some ''ok'', selectedModel = Some gpt_4o_mini,
         crawlInfo = \<lparr>requestedPages = 3, actualPagesCrawled = 1, embeddingsUsed = False\<rparr>,
         sources = [\<lparr>src_title = ''x'', src_url = ''https://twitter.com/x''\<rparr>]\<rparr>
   \<and> \<not> supported ''https://twitter.com/x''"
  by (simp add: model_defs fake_defs redirecting_scraper_def)

end
